theory Spec2Isabelle
  imports Complex_Main
begin

section \<open>Price values\<close>

text \<open>
  The analyzer computes on IEEE doubles held in pandas columns and numpy scalars.
  A value is modelled as a finite real, one of the two infinities, or NaN, with the
  IEEE rules for the special values written out: a comparison with NaN is false, a
  nonzero finite value divided by zero is an infinity (numpy warns, it does not raise),
  zero divided by zero is NaN. Rounding, overflow of finite operands and the sign of a
  zero are outside the model: finite arithmetic is exact, and a zero is the positive zero.
\<close>

datatype fl = Fin real | PInf | MInf | NaN

datatype error = IndexError | ValueError

definition fl_isna :: "fl \<Rightarrow> bool" where
  "fl_isna x = (x = NaN)"

fun inf_of_sign :: "real \<Rightarrow> fl" where
  "inf_of_sign s = (if 0 < s then PInf else if s < 0 then MInf else NaN)"

fun fl_neg :: "fl \<Rightarrow> fl" where
  "fl_neg (Fin a) = Fin (- a)"
| "fl_neg PInf = MInf"
| "fl_neg MInf = PInf"
| "fl_neg NaN = NaN"

fun fl_add :: "fl \<Rightarrow> fl \<Rightarrow> fl" where
  "fl_add (Fin a) (Fin b) = Fin (a + b)"
| "fl_add (Fin a) PInf = PInf"
| "fl_add (Fin a) MInf = MInf"
| "fl_add PInf (Fin b) = PInf"
| "fl_add PInf PInf = PInf"
| "fl_add MInf (Fin b) = MInf"
| "fl_add MInf MInf = MInf"
| "fl_add _ _ = NaN"

definition fl_sub :: "fl \<Rightarrow> fl \<Rightarrow> fl" where
  "fl_sub a b = fl_add a (fl_neg b)"

fun fl_mul :: "fl \<Rightarrow> fl \<Rightarrow> fl" where
  "fl_mul (Fin a) (Fin b) = Fin (a * b)"
| "fl_mul (Fin a) PInf = inf_of_sign a"
| "fl_mul (Fin a) MInf = inf_of_sign (- a)"
| "fl_mul PInf (Fin b) = inf_of_sign b"
| "fl_mul MInf (Fin b) = inf_of_sign (- b)"
| "fl_mul PInf PInf = PInf"
| "fl_mul PInf MInf = MInf"
| "fl_mul MInf PInf = MInf"
| "fl_mul MInf MInf = PInf"
| "fl_mul _ _ = NaN"

fun fl_div :: "fl \<Rightarrow> fl \<Rightarrow> fl" where
  "fl_div (Fin a) (Fin b) = (if b = 0 then inf_of_sign a else Fin (a / b))"
| "fl_div (Fin a) PInf = Fin 0"
| "fl_div (Fin a) MInf = Fin 0"
| "fl_div PInf (Fin b) = (if b < 0 then MInf else PInf)"
| "fl_div MInf (Fin b) = (if b < 0 then PInf else MInf)"
| "fl_div _ _ = NaN"

fun fl_abs :: "fl \<Rightarrow> fl" where
  "fl_abs (Fin a) = Fin \<bar>a\<bar>"
| "fl_abs PInf = PInf"
| "fl_abs MInf = PInf"
| "fl_abs NaN = NaN"

text \<open>\<open>np.sign\<close>: -1, 0 or 1, and NaN for NaN.\<close>

fun fl_sign :: "fl \<Rightarrow> fl" where
  "fl_sign (Fin a) = Fin (sgn a)"
| "fl_sign PInf = Fin 1"
| "fl_sign MInf = Fin (- 1)"
| "fl_sign NaN = NaN"

fun fl_lt :: "fl \<Rightarrow> fl \<Rightarrow> bool" where
  "fl_lt (Fin a) (Fin b) = (a < b)"
| "fl_lt (Fin a) PInf = True"
| "fl_lt MInf (Fin b) = True"
| "fl_lt MInf PInf = True"
| "fl_lt _ _ = False"

fun fl_le :: "fl \<Rightarrow> fl \<Rightarrow> bool" where
  "fl_le (Fin a) (Fin b) = (a \<le> b)"
| "fl_le (Fin a) PInf = True"
| "fl_le MInf (Fin b) = True"
| "fl_le MInf PInf = True"
| "fl_le PInf PInf = True"
| "fl_le MInf MInf = True"
| "fl_le _ _ = False"

definition fl_gt :: "fl \<Rightarrow> fl \<Rightarrow> bool" where
  "fl_gt a b = fl_lt b a"

definition fl_ge :: "fl \<Rightarrow> fl \<Rightarrow> bool" where
  "fl_ge a b = fl_le b a"

text \<open>The operator \<open>==\<close> on doubles: NaN equals nothing, itself included.\<close>

definition fl_eq :: "fl \<Rightarrow> fl \<Rightarrow> bool" where
  "fl_eq a b = (a = b \<and> \<not> fl_isna a)"

section \<open>pandas column reductions and slices\<close>

text \<open>
  \<open>Series.max()\<close>, \<open>Series.min()\<close> and \<open>Series.mean()\<close> skip NaN entries
  (\<open>skipna=True\<close> is the default) and give NaN when no entry is left.
\<close>

definition dropna :: "fl list \<Rightarrow> fl list" where
  "dropna xs = filter (\<lambda>x. \<not> fl_isna x) xs"

definition fl_max :: "fl \<Rightarrow> fl \<Rightarrow> fl" where
  "fl_max a b = (if fl_lt a b then b else a)"

definition fl_min :: "fl \<Rightarrow> fl \<Rightarrow> fl" where
  "fl_min a b = (if fl_lt b a then b else a)"

definition series_max :: "fl list \<Rightarrow> fl" where
  "series_max xs = (case dropna xs of [] \<Rightarrow> NaN | y # ys \<Rightarrow> fold fl_max ys y)"

definition series_min :: "fl list \<Rightarrow> fl" where
  "series_min xs = (case dropna xs of [] \<Rightarrow> NaN | y # ys \<Rightarrow> fold fl_min ys y)"

definition series_mean :: "fl list \<Rightarrow> fl" where
  "series_mean xs =
     (case dropna xs of
        [] \<Rightarrow> NaN
      | y # ys \<Rightarrow> fl_div (fold (\<lambda>v acc. fl_add acc v) (y # ys) (Fin 0))
                         (Fin (real (length (y # ys)))))"

text \<open>\<open>.iloc[0]\<close> and \<open>.iloc[-1]\<close> raise IndexError on an empty frame or column.\<close>

definition iloc_first :: "'a list \<Rightarrow> error + 'a" where
  "iloc_first xs = (case xs of [] \<Rightarrow> Inl IndexError | x # _ \<Rightarrow> Inr x)"

definition iloc_last :: "'a list \<Rightarrow> error + 'a" where
  "iloc_last xs = (if xs = [] then Inl IndexError else Inr (last xs))"

text \<open>
  \<open>df.iloc[-n:]\<close> for a count \<open>n\<close>: the trailing \<open>n\<close> rows, the whole frame when it has
  fewer; for \<open>n = 0\<close> the slice is \<open>df.iloc[0:]\<close>, the whole frame again.
\<close>

definition iloc_tail :: "nat \<Rightarrow> 'a list \<Rightarrow> 'a list" where
  "iloc_tail n df = (if n = 0 then df else drop (length df - n) df)"

text \<open>\<open>df.iloc[-a:-b]\<close> for \<open>a, b > 0\<close>: both ends count from the back and clip at 0.\<close>

definition iloc_between_back :: "nat \<Rightarrow> nat \<Rightarrow> 'a list \<Rightarrow> 'a list" where
  "iloc_between_back a b df =
     (let start = length df - a; stop = length df - b
      in take (stop - start) (drop start df))"

section \<open>Configuration\<close>

record range_config =
  min_candles :: nat
  min_touches :: nat
  width_min_pct :: real
  width_max_pct :: real
  touch_tolerance_pct :: real
  midrange_pct :: real

record impulse_config =
  min_candles_consecutive :: nat
  max_candles_total :: nat
  min_total_pct_change :: real
  min_body_pct :: real

definition RANGE_CONFIG :: range_config where
  "RANGE_CONFIG = \<lparr> min_candles = 15, min_touches = 2, width_min_pct = 7 / 10,
     width_max_pct = 3, touch_tolerance_pct = 1, midrange_pct = 30 \<rparr>"

definition IMPULSE_CONFIG :: impulse_config where
  "IMPULSE_CONFIG = \<lparr> min_candles_consecutive = 2, max_candles_total = 3,
     min_total_pct_change = 3 / 2, min_body_pct = 60 \<rparr>"

definition TREND_THRESHOLD_PCT :: real where
  "TREND_THRESHOLD_PCT = 1 / 10"

definition TREND_LOOKBACK :: nat where
  "TREND_LOOKBACK = 10"

section \<open>Candles and the preprocessor\<close>

record CandleDataInput =
  timestamp :: string
  open_c :: fl
  high_c :: fl
  low_c :: fl
  close_c :: fl

text \<open>A row of the frame: the candle with the three derived columns.\<close>

record row = CandleDataInput +
  body :: fl
  range_c :: fl
  body_ratio :: fl

text \<open>
  Lines 53 to 58: \<open>np.where\<close> evaluates the quotient for every row and selects 0 where
  the range column equals 0; the division of columns never raises.
\<close>

definition candle_metrics :: "CandleDataInput \<Rightarrow> row" where
  "candle_metrics c =
     (let b = fl_abs (fl_sub (close_c c) (open_c c));
          r = fl_sub (high_c c) (low_c c)
      in \<lparr> timestamp = timestamp c, open_c = open_c c, high_c = high_c c,
           low_c = low_c c, close_c = close_c c,
           body = b, range_c = r,
           body_ratio = (if fl_eq r (Fin 0) then Fin 0
                         else fl_mul (fl_div b r) (Fin 100)) \<rparr>)"

text \<open>
  \<open>pd.to_datetime\<close> is library code: the parser is a parameter, \<open>None\<close> where it
  raises. An empty list gives a frame without columns, so that reading the timestamp
  column raises; every exception leaves the function as ValueError. The rows are sorted
  by the parsed timestamp before the metrics are attached; rows with equal timestamps
  keep their input order here, an order pandas does not promise and no result below
  depends on.
\<close>

definition preprocess_data_from_json ::
    "(string \<Rightarrow> int option) \<Rightarrow> CandleDataInput list \<Rightarrow> error + row list" where
  "preprocess_data_from_json to_datetime data =
     (if data = [] then Inl ValueError
      else if \<exists>c \<in> set data. to_datetime (timestamp c) = None then Inl ValueError
      else Inr (map candle_metrics
                  (sort_key (\<lambda>c. the (to_datetime (timestamp c))) data)))"

section \<open>Entry zone\<close>

text \<open>
  Lines 63 to 70. The two band bounds are computed here without rounding, as all finite
  arithmetic of this theory is; the code rounds each of its operations to a double, so
  for a price within a rounding error of a bound the comparison of the code can come out
  on the other side. The results below use the zone test as a condition on the series
  and say nothing about where a bound lies.
\<close>

definition check_price_near_extreme :: "fl \<Rightarrow> fl \<Rightarrow> fl \<Rightarrow> real \<Rightarrow> bool" where
  "check_price_near_extreme price range_low range_high mid_pct =
     (let total_range = fl_sub range_high range_low
      in if fl_le total_range (Fin 0) then False
         else
           let lower_bound =
                 fl_add range_low (fl_mul total_range (Fin ((100 - mid_pct) / 2 / 100)));
               upper_bound =
                 fl_sub range_high (fl_mul total_range (Fin ((100 - mid_pct) / 2 / 100)))
           in fl_lt price lower_bound \<or> fl_gt price upper_bound)"

section \<open>Range detector\<close>

record range_window =
  high :: fl
  low :: fl
  width_pct :: fl
  start_index :: nat
  end_index :: int

text \<open>
  The body of the scan loop for one start offset: \<open>Inr None\<close> is \<open>continue\<close> (or the
  end of the body without a return), \<open>Inr (Some w)\<close> is \<open>return w\<close>.
\<close>

definition check_window :: "range_config \<Rightarrow> row list \<Rightarrow> nat \<Rightarrow> error + range_window option" where
  "check_window cfg df start_idx =
     (let window = take (min_candles cfg) (drop start_idx df);
          window_high = series_max (map high_c window);
          window_low = series_min (map low_c window)
      in if fl_isna window_high \<or> fl_le window_high window_low then Inr None
         else
           let high_tol = fl_mul window_high (Fin (touch_tolerance_pct cfg / 100));
               low_tol = fl_mul window_low (Fin (touch_tolerance_pct cfg / 100));
               high_touches =
                 filter (\<lambda>r. fl_ge (high_c r) (fl_sub window_high high_tol)) window;
               low_touches =
                 filter (\<lambda>r. fl_le (low_c r) (fl_add window_low low_tol)) window
           in if min_touches cfg \<le> length high_touches \<and> min_touches cfg \<le> length low_touches
              then
                let width = fl_sub window_high window_low;
                    midpoint = fl_div (fl_add window_high window_low) (Fin 2)
                in if fl_eq midpoint (Fin 0) then Inr None
                   else
                     let wpct = fl_mul (fl_div width midpoint) (Fin 100)
                     in if fl_le (Fin (width_min_pct cfg)) wpct \<and>
                           fl_le wpct (Fin (width_max_pct cfg))
                        then
                          (case iloc_last (map close_c window) of
                             Inl e \<Rightarrow> Inl e
                           | Inr last_close \<Rightarrow>
                               let upper_bound =
                                     fl_mul window_high (Fin (1 + touch_tolerance_pct cfg / 100));
                                   lower_bound =
                                     fl_mul window_low (Fin (1 - touch_tolerance_pct cfg / 100))
                               in if fl_le lower_bound last_close \<and> fl_le last_close upper_bound
                                  then Inr (Some \<lparr> high = window_high, low = window_low,
                                         width_pct = wpct, start_index = start_idx,
                                         end_index = int start_idx + int (min_candles cfg) - 1 \<rparr>)
                                  else Inr None)
                        else Inr None
              else Inr None)"

text \<open>
  \<open>for start_idx in range(len(df) - min_candles, -1, -1)\<close>: the offsets from the given
  one down to 0; after offset 0 the loop ends and the function returns None.
\<close>

fun scan_windows :: "range_config \<Rightarrow> row list \<Rightarrow> nat \<Rightarrow> error + range_window option" where
  "scan_windows cfg df 0 = check_window cfg df 0"
| "scan_windows cfg df (Suc s) =
     (case check_window cfg df (Suc s) of
        Inl e \<Rightarrow> Inl e
      | Inr (Some w) \<Rightarrow> Inr (Some w)
      | Inr None \<Rightarrow> scan_windows cfg df s)"

definition detect_range :: "range_config \<Rightarrow> row list \<Rightarrow> error + range_window option" where
  "detect_range cfg df =
     (if length df < min_candles cfg then Inr None
      else scan_windows cfg df (length df - min_candles cfg))"

section \<open>Trend and break of structure\<close>

datatype trend = uptrend | downtrend

definition detect_trend_and_bos :: "row list \<Rightarrow> error + (trend option \<times> bool)" where
  "detect_trend_and_bos df =
     (if length df < TREND_LOOKBACK + 1 then Inr (None, False)
      else
        let lookback_data = iloc_between_back (TREND_LOOKBACK + 1) 1 df;
            recent_data = iloc_tail TREND_LOOKBACK df
        in case iloc_last (map close_c recent_data) of
             Inl e \<Rightarrow> Inl e
           | Inr c_last \<Rightarrow>
              (case iloc_first (map close_c lookback_data) of
                 Inl e \<Rightarrow> Inl e
               | Inr c_first \<Rightarrow>
                  let price_change = fl_sub c_last c_first;
                      price_change_pct = fl_mul (fl_div price_change c_first) (Fin 100);
                      tr = (if fl_gt price_change_pct (Fin TREND_THRESHOLD_PCT)
                            then Some uptrend
                            else if fl_lt price_change_pct (Fin (- TREND_THRESHOLD_PCT))
                            then Some downtrend
                            else None)
                  in (case tr of
                       Some uptrend \<Rightarrow>
                         (let prev_high = series_max (map high_c lookback_data)
                          in case iloc_last (map high_c df) of
                               Inl e \<Rightarrow> Inl e
                             | Inr h \<Rightarrow> Inr (tr, fl_gt h prev_high))
                     | Some downtrend \<Rightarrow>
                         (let prev_low = series_min (map low_c lookback_data)
                          in case iloc_last (map low_c df) of
                               Inl e \<Rightarrow> Inl e
                             | Inr l \<Rightarrow> Inr (tr, fl_lt l prev_low))
                     | None \<Rightarrow> Inr (tr, False))))"

section \<open>Impulse detector\<close>

text \<open>
  The body of the loop for one candidate length: \<open>Inr False\<close> is \<open>continue\<close> (or the end
  of the body with \<open>consistent\<close> false), \<open>Inr True\<close> is \<open>return True\<close>.
\<close>

definition check_length :: "impulse_config \<Rightarrow> row list \<Rightarrow> nat \<Rightarrow> error + bool" where
  "check_length cfg df num_candles =
     (if length df < num_candles then Inr False
      else
        let subset = iloc_tail num_candles df
        in case iloc_first (map open_c subset) of
             Inl e \<Rightarrow> Inl e
           | Inr start_price \<Rightarrow>
              (case iloc_last (map close_c subset) of
                 Inl e \<Rightarrow> Inl e
               | Inr end_price \<Rightarrow>
                  if fl_eq start_price (Fin 0) then Inr False
                  else
                    let pct_change =
                          fl_mul (fl_abs (fl_div (fl_sub end_price start_price) start_price))
                                 (Fin 100)
                    in if fl_lt pct_change (Fin (min_total_pct_change cfg)) then Inr False
                       else if fl_lt (series_mean (map body_ratio subset)) (Fin (min_body_pct cfg))
                       then Inr False
                       else
                         let direction = fl_sign (fl_sub end_price start_price)
                         in Inr (list_all
                                   (\<lambda>candle. fl_ge (fl_mul (fl_sub (close_c candle) (open_c candle))
                                                           direction) (Fin 0))
                                   subset)))"

fun impulse_loop :: "impulse_config \<Rightarrow> row list \<Rightarrow> nat list \<Rightarrow> error + bool" where
  "impulse_loop cfg df [] = Inr False"
| "impulse_loop cfg df (n # ns) =
     (case check_length cfg df n of
        Inl e \<Rightarrow> Inl e
      | Inr True \<Rightarrow> Inr True
      | Inr False \<Rightarrow> impulse_loop cfg df ns)"

definition check_recent_impulse :: "impulse_config \<Rightarrow> row list \<Rightarrow> error + bool" where
  "check_recent_impulse cfg df =
     impulse_loop cfg df [min_candles_consecutive cfg ..< max_candles_total cfg + 1]"

section \<open>Decision engine\<close>

text \<open>
  The reason is the list of fragments that the code joins with \<open>". "\<close>; a fragment keeps
  the values the code formats into it, the formatting of a double as text is not modelled.
\<close>

datatype reason_part =
    RangeDetected fl fl fl
  | InZoneNoPriorImpulse
  | TrendBosImpulse "trend option" bool bool
  | TrendWithBos

text \<open>Steps 2 and 3, reached whenever step 1 did not return.\<close>

definition in_price_or_no_entry ::
    "impulse_config \<Rightarrow> row list \<Rightarrow> reason_part list \<Rightarrow> error + (string \<times> reason_part list)" where
  "in_price_or_no_entry icfg df reason =
     (case detect_trend_and_bos df of
        Inl e \<Rightarrow> Inl e
      | Inr (tr, bos) \<Rightarrow>
         (case check_recent_impulse icfg df of
            Inl e \<Rightarrow> Inl e
          | Inr current_impulse \<Rightarrow>
             let reason2 = reason @ [TrendBosImpulse tr bos current_impulse]
             in if tr \<noteq> None \<and> bos \<and> \<not> current_impulse
                then Inr (''In-Price Entry'', reason2 @ [TrendWithBos])
                else Inr (''No Entry'', reason2)))"

definition analyze_data ::
    "range_config \<Rightarrow> impulse_config \<Rightarrow> row list \<Rightarrow> error + (string \<times> reason_part list)" where
  "analyze_data rcfg icfg df =
     (case detect_range rcfg df of
        Inl e \<Rightarrow> Inl e
      | Inr detected_range \<Rightarrow>
         (case iloc_last (map close_c df) of
            Inl e \<Rightarrow> Inl e
          | Inr last_close \<Rightarrow>
             (case detected_range of
                None \<Rightarrow> in_price_or_no_entry icfg df []
              | Some w \<Rightarrow>
                 let in_entry_zone =
                       check_price_near_extreme last_close (low w) (high w) (midrange_pct rcfg);
                     reason = [RangeDetected (low w) (high w) (width_pct w)]
                 in if in_entry_zone
                    then (case check_recent_impulse icfg (take (start_index w) df) of
                            Inl e \<Rightarrow> Inl e
                          | Inr pre_impulse \<Rightarrow>
                             if \<not> pre_impulse
                             then Inr (''Limit Catch Entry'', reason @ [InZoneNoPriorImpulse])
                             else in_price_or_no_entry icfg df reason)
                    else in_price_or_no_entry icfg df reason)))"

section \<open>The range detector as the specification words it\<close>

text \<open>
  The five qualifying conditions of a candidate window, written from the specification
  (section 4.2) and not from the code, to be compared with \<open>check_window\<close>.
\<close>

definition spec_width_pct :: "fl \<Rightarrow> fl \<Rightarrow> fl" where
  "spec_width_pct h l = fl_mul (fl_div (fl_sub h l) (fl_div (fl_add h l) (Fin 2))) (Fin 100)"

definition spec_qualifying_window :: "range_config \<Rightarrow> row list \<Rightarrow> bool" where
  "spec_qualifying_window cfg window =
     (let window_high = series_max (map high_c window);
          window_low = series_min (map low_c window);
          tol_high = fl_mul window_high (Fin (touch_tolerance_pct cfg / 100));
          tol_low = fl_mul window_low (Fin (touch_tolerance_pct cfg / 100));
          resistance_touches =
            length (filter (\<lambda>r. fl_ge (high_c r) (fl_sub window_high tol_high)) window);
          support_touches =
            length (filter (\<lambda>r. fl_le (low_c r) (fl_add window_low tol_low)) window);
          wpct = spec_width_pct window_high window_low
      in \<not> (fl_le window_high window_low \<or> fl_isna window_high)
         \<and> min_touches cfg \<le> resistance_touches \<and> min_touches cfg \<le> support_touches
         \<and> fl_le (Fin (width_min_pct cfg)) wpct \<and> fl_le wpct (Fin (width_max_pct cfg))
         \<and> (case iloc_last (map close_c window) of
              Inl _ \<Rightarrow> False
            | Inr c \<Rightarrow>
                fl_le (fl_mul window_low (Fin (1 - touch_tolerance_pct cfg / 100))) c \<and>
                fl_le c (fl_mul window_high (Fin (1 + touch_tolerance_pct cfg / 100)))))"

definition spec_range_window :: "range_config \<Rightarrow> row list \<Rightarrow> nat \<Rightarrow> range_window" where
  "spec_range_window cfg window s =
     \<lparr> high = series_max (map high_c window), low = series_min (map low_c window),
       width_pct = spec_width_pct (series_max (map high_c window))
                                  (series_min (map low_c window)),
       start_index = s, end_index = int s + int (min_candles cfg) - 1 \<rparr>"

section \<open>Example series\<close>

definition candle :: "real \<Rightarrow> real \<Rightarrow> real \<Rightarrow> real \<Rightarrow> row" where
  "candle op hi lo cl =
     candle_metrics \<lparr> timestamp = [], open_c = Fin op, high_c = Fin hi,
                      low_c = Fin lo, close_c = Fin cl \<rparr>"

text \<open>
  Fifteen candles between 99.5 and 101 whose last candle closes at 100.9 on a new high:
  a range with the close in the upper band, and an uptrend with a break of structure.
\<close>

definition series_range_and_trend :: "row list" where
  "series_range_and_trend =
     replicate 14 (candle 100 (201 / 2) (199 / 2) 100) @ [candle 100 101 (199 / 2) (1009 / 10)]"

text \<open>Seventeen candles: sixteen in a one-point range, then a candle spiking to 110.\<close>

definition series_two_ranges :: "row list" where
  "series_two_ranges =
     replicate 16 (candle 100 (201 / 2) (199 / 2) 100) @ [candle 100 110 (199 / 2) 100]"

definition series_short :: "row list" where
  "series_short = replicate 14 (candle 100 (201 / 2) (199 / 2) 100)"

definition series_ten :: "row list" where
  "series_ten = replicate 10 (candle 100 (201 / 2) (199 / 2) 100)"

definition series_flat :: "row list" where
  "series_flat = replicate 15 (candle 100 (201 / 2) (199 / 2) 100)"

text \<open>Two full-bodied rising candles, 100 to 104.\<close>

definition series_impulse :: "row list" where
  "series_impulse = [candle 100 102 100 102, candle 102 104 102 104]"

definition IMPULSE_CONFIG_strict :: impulse_config where
  "IMPULSE_CONFIG_strict = IMPULSE_CONFIG \<lparr> min_total_pct_change := 2, min_body_pct := 70 \<rparr>"

definition series_zero_open :: "row list" where
  "series_zero_open = [candle 0 1 0 1, candle 1 2 1 2]"

text \<open>Sixteen candles whose high is NaN, and sixteen whose four prices are all 100.\<close>

definition series_nan_highs :: "row list" where
  "series_nan_highs =
     replicate 16 (candle_metrics \<lparr> timestamp = [], open_c = Fin 100, high_c = NaN,
                                     low_c = Fin 99, close_c = Fin 100 \<rparr>)"

definition series_one_price :: "row list" where
  "series_one_price = replicate 16 (candle 100 100 100 100)"

definition example_to_datetime :: "string \<Rightarrow> int option" where
  "example_to_datetime s =
     (if s = ''2024-01-01'' then Some 1 else if s = ''2024-01-02'' then Some 2 else None)"

definition example_flat_candle :: CandleDataInput where
  "example_flat_candle =
     \<lparr> timestamp = ''2024-01-01'', open_c = Fin 100, high_c = Fin 100, low_c = Fin 100,
       close_c = Fin 100 \<rparr>"

definition example_candle :: CandleDataInput where
  "example_candle =
     \<lparr> timestamp = ''2024-01-02'', open_c = Fin 100, high_c = Fin 102, low_c = Fin 98,
       close_c = Fin 101 \<rparr>"

section \<open>Slices and column reads\<close>

lemma series_max_Nil: "series_max [] = NaN"
  by (simp add: series_max_def dropna_def)

lemma window_nonempty: "\<not> fl_isna (series_max (map high_c window)) \<Longrightarrow> window \<noteq> []"
  by (auto simp: series_max_Nil fl_isna_def)

lemma iloc_last_map: "xs \<noteq> [] \<Longrightarrow> iloc_last (map f xs) = Inr (f (last xs))"
  by (simp add: iloc_last_def last_map)

lemma iloc_first_map: "xs \<noteq> [] \<Longrightarrow> iloc_first (map f xs) = Inr (f (hd xs))"
  by (cases xs) (simp_all add: iloc_first_def)

lemma iloc_tail_nonempty: "0 < n \<Longrightarrow> n \<le> length df \<Longrightarrow> iloc_tail n df \<noteq> []"
  by (auto simp: iloc_tail_def)

lemma fl_lt_Fin_mono: "fl_lt x (Fin a) \<Longrightarrow> a \<le> b \<Longrightarrow> fl_lt x (Fin b)"
  by (cases x) auto

section \<open>Range detector: the loop body against the specification's conditions\<close>

lemma finite_of_width_bounds:
  assumes "\<not> fl_isna h" "\<not> fl_le h l"
    and "fl_le (Fin a) (spec_width_pct h l)" "fl_le (spec_width_pct h l) (Fin b)"
  shows "\<exists>H L. h = Fin H \<and> l = Fin L \<and> L < H \<and> H + L \<noteq> 0"
  using assms
  by (cases h; cases l)
     (auto simp: spec_width_pct_def fl_sub_def fl_isna_def split: if_splits)

lemma midpoint_zero_too_wide:
  assumes "\<not> fl_isna h" "\<not> fl_le h l" "fl_eq (fl_div (fl_add h l) (Fin 2)) (Fin 0)"
  shows "\<not> fl_le (spec_width_pct h l) (Fin b)"
  using assms
  by (cases h; cases l)
     (auto simp: spec_width_pct_def fl_sub_def fl_isna_def fl_eq_def split: if_splits)

lemma check_window_refines:
  "check_window cfg df s =
     (if spec_qualifying_window cfg (take (min_candles cfg) (drop s df))
      then Inr (Some (spec_range_window cfg (take (min_candles cfg) (drop s df)) s))
      else Inr None)"
proof (cases "fl_isna (series_max (map high_c (take (min_candles cfg) (drop s df)))) \<or>
    fl_le (series_max (map high_c (take (min_candles cfg) (drop s df))))
          (series_min (map low_c (take (min_candles cfg) (drop s df))))")
  case True
  then show ?thesis
    by (auto simp: check_window_def spec_qualifying_window_def Let_def)
next
  case False
  let ?W = "take (min_candles cfg) (drop s df)"
  from False have ne: "?W \<noteq> []" using window_nonempty by blast
  have last: "iloc_last (map close_c ?W) = Inr (close_c (last ?W))"
    using ne by (rule iloc_last_map)
  from False have h: "\<not> fl_isna (series_max (map high_c ?W))"
      "\<not> fl_le (series_max (map high_c ?W)) (series_min (map low_c ?W))" by auto
  note mz = midpoint_zero_too_wide[OF h, unfolded spec_width_pct_def]
  show ?thesis
    using False last mz
    by (auto simp: check_window_def spec_qualifying_window_def spec_range_window_def
        spec_width_pct_def Let_def)
qed

lemma check_window_degenerate:
  assumes "fl_isna (series_max (map high_c (take (min_candles cfg) (drop s df)))) \<or>
    fl_le (series_max (map high_c (take (min_candles cfg) (drop s df))))
          (series_min (map low_c (take (min_candles cfg) (drop s df))))"
  shows "check_window cfg df s = Inr None"
  using assms by (auto simp: check_window_def Let_def)

lemma check_window_no_error: "check_window cfg df s \<noteq> Inl e"
  by (simp add: check_window_refines)

lemma check_window_Some_iff:
  "check_window cfg df s = Inr (Some w) \<longleftrightarrow>
     spec_qualifying_window cfg (take (min_candles cfg) (drop s df)) \<and>
     w = spec_range_window cfg (take (min_candles cfg) (drop s df)) s"
  by (auto simp: check_window_refines)

lemma check_window_None_iff:
  "check_window cfg df s = Inr None \<longleftrightarrow>
     \<not> spec_qualifying_window cfg (take (min_candles cfg) (drop s df))"
  by (simp add: check_window_refines)

lemma check_window_result:
  assumes "check_window cfg df s = Inr (Some w)"
  shows "width_pct w = spec_width_pct (high w) (low w) \<and>
         fl_le (Fin (width_min_pct cfg)) (width_pct w) \<and>
         fl_le (width_pct w) (Fin (width_max_pct cfg)) \<and>
         \<not> fl_isna (high w) \<and> \<not> fl_le (high w) (low w) \<and> start_index w = s"
  using assms
  by (auto simp: check_window_Some_iff spec_qualifying_window_def spec_range_window_def
      Let_def)

section \<open>Range detector: the scan\<close>

lemma scan_windows_no_error: "scan_windows cfg df n \<noteq> Inl e"
  by (induction n) (auto simp: check_window_no_error split: sum.splits option.splits)

lemma detect_range_no_error: "detect_range cfg df \<noteq> Inl e"
  by (simp add: detect_range_def scan_windows_no_error)

lemma scan_windows_Some_iff:
  "scan_windows cfg df n = Inr (Some w) \<longleftrightarrow>
     (\<exists>s\<le>n. check_window cfg df s = Inr (Some w) \<and>
        (\<forall>t. s < t \<and> t \<le> n \<longrightarrow> check_window cfg df t = Inr None))"
proof (induction n)
  case 0
  then show ?case by auto
next
  case (Suc n)
  show ?case
  proof (cases "check_window cfg df (Suc n)")
    case (Inl e)
    then show ?thesis using check_window_no_error by blast
  next
    case (Inr res)
    show ?thesis
    proof (cases res)
      case None
      have "(\<exists>s\<le>Suc n. check_window cfg df s = Inr (Some w) \<and>
        (\<forall>t. s < t \<and> t \<le> Suc n \<longrightarrow> check_window cfg df t = Inr None))
        \<longleftrightarrow> (\<exists>s\<le>n. check_window cfg df s = Inr (Some w) \<and>
        (\<forall>t. s < t \<and> t \<le> n \<longrightarrow> check_window cfg df t = Inr None))" (is "?L = ?R")
      proof
        assume ?L
        then obtain s where s: "s \<le> Suc n" "check_window cfg df s = Inr (Some w)"
          "\<forall>t. s < t \<and> t \<le> Suc n \<longrightarrow> check_window cfg df t = Inr None" by blast
        from s(2) Inr None have "s \<noteq> Suc n" by auto
        with s(1) have "s \<le> n" by simp
        with s show ?R by auto
      next
        assume ?R
        then obtain s where s: "s \<le> n" "check_window cfg df s = Inr (Some w)"
          "\<forall>t. s < t \<and> t \<le> n \<longrightarrow> check_window cfg df t = Inr None" by blast
        have "\<forall>t. s < t \<and> t \<le> Suc n \<longrightarrow> check_window cfg df t = Inr None"
          using s(3) Inr None by (auto simp: le_Suc_eq)
        with s show ?L by (intro exI[of _ s]) auto
      qed
      with Suc Inr None show ?thesis by simp
    next
      case (Some w')
      have "(\<exists>s\<le>Suc n. check_window cfg df s = Inr (Some w) \<and>
        (\<forall>t. s < t \<and> t \<le> Suc n \<longrightarrow> check_window cfg df t = Inr None)) \<longleftrightarrow> w' = w"
        (is "?L = _")
      proof
        assume ?L
        then obtain s where s: "s \<le> Suc n" "check_window cfg df s = Inr (Some w)"
          "\<forall>t. s < t \<and> t \<le> Suc n \<longrightarrow> check_window cfg df t = Inr None" by blast
        have "s = Suc n"
        proof (rule ccontr)
          assume "s \<noteq> Suc n"
          with s(1) have "s < Suc n" by simp
          with s(3) have "check_window cfg df (Suc n) = Inr None" by simp
          with Inr Some show False by simp
        qed
        with s(2) Inr Some show "w' = w" by simp
      next
        assume "w' = w"
        with Inr Some show ?L by (intro exI[of _ "Suc n"]) auto
      qed
      with Inr Some show ?thesis by simp
    qed
  qed
qed

lemma scan_windows_None_iff:
  "scan_windows cfg df n = Inr None \<longleftrightarrow> (\<forall>s\<le>n. check_window cfg df s = Inr None)"
proof (induction n)
  case 0
  then show ?case by simp
next
  case (Suc n)
  then show ?case
    by (cases "check_window cfg df (Suc n)")
       (auto simp: le_Suc_eq split: option.splits)
qed

lemma detect_range_Some_window:
  assumes "detect_range cfg df = Inr (Some w)"
  shows "\<exists>s. check_window cfg df s = Inr (Some w)"
  using assms by (auto simp: detect_range_def scan_windows_Some_iff split: if_splits)

lemma detect_range_finite:
  assumes "detect_range cfg df = Inr (Some w)"
  shows "\<exists>H L. high w = Fin H \<and> low w = Fin L \<and> L < H \<and> H + L \<noteq> 0"
proof -
  from assms obtain s where "check_window cfg df s = Inr (Some w)"
    using detect_range_Some_window by blast
  from check_window_result[OF this] show ?thesis
    using finite_of_width_bounds[of "high w" "low w" "width_min_pct cfg" "width_max_pct cfg"]
    by auto
qed

section \<open>Impulse detector\<close>

lemma check_length_short: "length df < n \<Longrightarrow> check_length cfg df n = Inr False"
  by (simp add: check_length_def)

lemma check_length_no_error: "0 < n \<Longrightarrow> check_length cfg df n \<noteq> Inl e"
proof (cases "length df < n")
  case True
  then show ?thesis by (simp add: check_length_short)
next
  case False
  assume "0 < n"
  with False have ne: "iloc_tail n df \<noteq> []" by (simp add: iloc_tail_nonempty)
  show ?thesis
    using False iloc_first_map[OF ne, of open_c] iloc_last_map[OF ne, of close_c]
    by (simp add: check_length_def Let_def)
qed

lemma impulse_loop_no_error:
  "\<forall>n\<in>set ns. 0 < n \<Longrightarrow> impulse_loop cfg df ns \<noteq> Inl e"
proof (induction ns)
  case Nil
  then show ?case by simp
next
  case (Cons n ns)
  then have "check_length cfg df n \<noteq> Inl e" for e by (simp add: check_length_no_error)
  with Cons show ?case by (auto split: sum.splits bool.splits)
qed

lemma check_recent_impulse_no_error:
  "0 < min_candles_consecutive cfg \<Longrightarrow> check_recent_impulse cfg df \<noteq> Inl e"
  unfolding check_recent_impulse_def by (rule impulse_loop_no_error) auto

lemma impulse_loop_short:
  "\<forall>n\<in>set ns. length df < n \<Longrightarrow> impulse_loop cfg df ns = Inr False"
  by (induction ns) (simp_all add: check_length_short)

lemma check_recent_impulse_short:
  "length df < min_candles_consecutive cfg \<Longrightarrow> check_recent_impulse cfg df = Inr False"
  unfolding check_recent_impulse_def by (rule impulse_loop_short) auto

lemma check_length_error_indep:
  "check_length cfg df n = Inl e \<Longrightarrow> check_length cfg' df n = Inl e"
  by (auto simp: check_length_def Let_def split: if_splits sum.splits)

lemma check_length_mono:
  assumes "min_total_pct_change lax \<le> min_total_pct_change strict"
    and "min_body_pct lax \<le> min_body_pct strict"
    and "check_length strict df n = Inr True"
  shows "check_length lax df n = Inr True"
  using assms
  by (auto simp: check_length_def Let_def split: if_splits sum.splits dest: fl_lt_Fin_mono)

lemma impulse_loop_mono:
  assumes "min_total_pct_change lax \<le> min_total_pct_change strict"
    and "min_body_pct lax \<le> min_body_pct strict"
    and "impulse_loop strict df ns = Inr True"
  shows "impulse_loop lax df ns = Inr True"
  using assms(3)
proof (induction ns)
  case Nil
  then show ?case by simp
next
  case (Cons n ns)
  show ?case
  proof (cases "check_length strict df n")
    case (Inl e)
    with Cons.prems show ?thesis by simp
  next
    case (Inr b)
    show ?thesis
    proof (cases b)
      case True
      with Inr have "check_length lax df n = Inr True"
        using check_length_mono[OF assms(1,2)] by simp
      then show ?thesis by simp
    next
      case False
      with Inr Cons.prems have "impulse_loop strict df ns = Inr True" by simp
      then have ih: "impulse_loop lax df ns = Inr True" by (rule Cons.IH)
      have "check_length lax df n \<noteq> Inl e" for e
        using check_length_error_indep[of lax df n e strict] Inr by auto
      then show ?thesis using ih by (auto split: sum.splits bool.splits)
    qed
  qed
qed

lemma check_length_zero_start:
  assumes "n \<le> length df" "iloc_first (map open_c (iloc_tail n df)) = Inr st"
    and "fl_eq st (Fin 0)"
  shows "check_length cfg df n = Inr False"
proof -
  from assms(2) have ne: "iloc_tail n df \<noteq> []" by (auto simp: iloc_first_def)
  show ?thesis using assms iloc_last_map[OF ne, of close_c]
    by (simp add: check_length_def Let_def)
qed

section \<open>Trend detector\<close>

lemma trend_short:
  "length df < TREND_LOOKBACK + 1 \<Longrightarrow> detect_trend_and_bos df = Inr (None, False)"
  by (simp add: detect_trend_and_bos_def)

lemma trend_none_no_bos: "detect_trend_and_bos df = Inr (None, b) \<Longrightarrow> b = False"
  by (auto simp: detect_trend_and_bos_def Let_def split: if_splits sum.splits)

lemma detect_trend_and_bos_no_error: "detect_trend_and_bos df \<noteq> Inl e"
proof (cases "length df < TREND_LOOKBACK + 1")
  case True
  then show ?thesis by (simp add: trend_short)
next
  case False
  then have len: "11 \<le> length df" by (simp add: TREND_LOOKBACK_def)
  then have ne: "df \<noteq> []" by auto
  have r: "iloc_tail TREND_LOOKBACK df \<noteq> []"
    using len by (simp add: iloc_tail_def TREND_LOOKBACK_def)
  have l: "iloc_between_back (TREND_LOOKBACK + 1) 1 df \<noteq> []"
    using len by (simp add: iloc_between_back_def TREND_LOOKBACK_def Let_def)
  show ?thesis
    using False iloc_last_map[OF r, of close_c] iloc_first_map[OF l, of close_c]
      iloc_last_map[OF ne, of high_c] iloc_last_map[OF ne, of low_c]
    by (simp add: detect_trend_and_bos_def Let_def)
qed

section \<open>Decision engine\<close>

lemma in_price_or_no_entry_label:
  "in_price_or_no_entry icfg df reason \<noteq> Inr (''Limit Catch Entry'', reason')"
  by (auto simp: in_price_or_no_entry_def Let_def split: sum.splits prod.splits)

lemma analyze_data_limit_catch:
  assumes "detect_range rcfg df = Inr (Some w)"
    and "iloc_last (map close_c df) = Inr last_close"
    and "check_price_near_extreme last_close (low w) (high w) (midrange_pct rcfg)"
    and "check_recent_impulse icfg (take (start_index w) df) = Inr False"
  shows "analyze_data rcfg icfg df =
     Inr (''Limit Catch Entry'',
          [RangeDetected (low w) (high w) (width_pct w), InZoneNoPriorImpulse])"
  using assms by (simp add: analyze_data_def Let_def)

lemma analyze_data_short:
  assumes "length df < min_candles rcfg"
  shows "analyze_data rcfg icfg df \<noteq> Inr (''Limit Catch Entry'', reason)"
  using assms in_price_or_no_entry_label
  by (auto simp: analyze_data_def detect_range_def split: sum.splits)

section \<open>Preprocessor\<close>

lemma candle_metrics_fields:
  "timestamp (candle_metrics c) = timestamp c \<and> open_c (candle_metrics c) = open_c c \<and>
   high_c (candle_metrics c) = high_c c \<and> low_c (candle_metrics c) = low_c c \<and>
   close_c (candle_metrics c) = close_c c \<and>
   body (candle_metrics c) = fl_abs (fl_sub (close_c c) (open_c c)) \<and>
   range_c (candle_metrics c) = fl_sub (high_c c) (low_c c)"
  by (simp add: candle_metrics_def Let_def)

lemma candle_metrics_body_ratio:
  "body_ratio (candle_metrics c) =
     (if fl_eq (fl_sub (high_c c) (low_c c)) (Fin 0) then Fin 0
      else fl_mul (fl_div (fl_abs (fl_sub (close_c c) (open_c c)))
                          (fl_sub (high_c c) (low_c c))) (Fin 100))"
  by (simp add: candle_metrics_def Let_def)

lemma preprocess_ok:
  assumes "data \<noteq> []" "\<forall>d\<in>set data. to_datetime (timestamp d) \<noteq> None"
  shows "\<exists>rows. preprocess_data_from_json to_datetime data = Inr rows \<and>
           set rows = candle_metrics ` set data \<and> length rows = length data"
  using assms by (auto simp: preprocess_data_from_json_def)

section \<open>The claims\<close>

text \<open>
  C1 (decision engine priority). Whenever the Limit Catch conditions hold (a range is
  detected, the latest close is in the entry zone, the impulse detector finds nothing in
  the rows before the range's start index) and the In-Price conditions hold as well (a
  trend, a break of structure, no current impulse), \<open>analyze_data\<close> returns the label
  "Limit Catch Entry": step 1 returns before step 2 is looked at.
\<close>

theorem analyze_data_priority:
  assumes "detect_range rcfg df = Inr (Some w)"
    and "iloc_last (map close_c df) = Inr last_close"
    and "check_price_near_extreme last_close (low w) (high w) (midrange_pct rcfg)"
    and "check_recent_impulse icfg (take (start_index w) df) = Inr False"
    and "detect_trend_and_bos df = Inr (Some tr, True)"
    and "check_recent_impulse icfg df = Inr False"
  shows "\<exists>reason. analyze_data rcfg icfg df = Inr (''Limit Catch Entry'', reason)"
  using analyze_data_limit_catch[OF assms(1-4)] by blast

theorem analyze_data_priority_witness:
  "detect_range RANGE_CONFIG series_range_and_trend =
     Inr (Some \<lparr> high = Fin 101, low = Fin (199 / 2), width_pct = Fin (600 / 401),
                 start_index = 0, end_index = 14 \<rparr>) \<and>
   iloc_last (map close_c series_range_and_trend) = Inr (Fin (1009 / 10)) \<and>
   check_price_near_extreme (Fin (1009 / 10)) (Fin (199 / 2)) (Fin 101)
     (midrange_pct RANGE_CONFIG) \<and>
   check_recent_impulse IMPULSE_CONFIG (take 0 series_range_and_trend) = Inr False \<and>
   detect_trend_and_bos series_range_and_trend = Inr (Some uptrend, True) \<and>
   check_recent_impulse IMPULSE_CONFIG series_range_and_trend = Inr False \<and>
   (\<exists>reason. analyze_data RANGE_CONFIG IMPULSE_CONFIG series_range_and_trend =
      Inr (''Limit Catch Entry'', reason))"
proof -
  let ?w = "\<lparr> high = Fin 101, low = Fin (199 / 2), width_pct = Fin (600 / 401),
              start_index = 0, end_index = 14 \<rparr>"
  have h1: "detect_range RANGE_CONFIG series_range_and_trend = Inr (Some ?w)"
    by code_simp
  have h2: "iloc_last (map close_c series_range_and_trend) = Inr (Fin (1009 / 10))"
    by code_simp
  have h3: "check_price_near_extreme (Fin (1009 / 10)) (low ?w) (high ?w)
      (midrange_pct RANGE_CONFIG)"
    by code_simp
  have h4: "check_recent_impulse IMPULSE_CONFIG (take (start_index ?w) series_range_and_trend)
      = Inr False"
    by code_simp
  have h5: "detect_trend_and_bos series_range_and_trend = Inr (Some uptrend, True)"
    by code_simp
  have h6: "check_recent_impulse IMPULSE_CONFIG series_range_and_trend = Inr False"
    by code_simp
  from analyze_data_priority[OF h1 h2 h3 h4 h5 h6] h1 h2 h3 h4 h5 h6
  show ?thesis by simp
qed

text \<open>
  C3 (range detector postcondition). Whenever \<open>detect_range\<close> returns a window, its
  \<open>width_pct\<close> is \<open>(high - low) / ((high + low) / 2) * 100\<close> and lies between
  \<open>width_min_pct\<close> and \<open>width_max_pct\<close> (0.7 and 3.0 in the default configuration).
\<close>

theorem detect_range_width_bounds:
  assumes "detect_range cfg df = Inr (Some w)"
  shows "width_pct w =
           fl_mul (fl_div (fl_sub (high w) (low w)) (fl_div (fl_add (high w) (low w)) (Fin 2)))
                  (Fin 100) \<and>
         fl_le (Fin (width_min_pct cfg)) (width_pct w) \<and>
         fl_le (width_pct w) (Fin (width_max_pct cfg)) \<and>
         (\<exists>H L. high w = Fin H \<and> low w = Fin L \<and>
            width_pct w = Fin ((H - L) / ((H + L) / 2) * 100) \<and>
            width_min_pct cfg \<le> (H - L) / ((H + L) / 2) * 100 \<and>
            (H - L) / ((H + L) / 2) * 100 \<le> width_max_pct cfg)"
proof -
  from assms obtain s where "check_window cfg df s = Inr (Some w)"
    using detect_range_Some_window by blast
  from check_window_result[OF this]
  have w: "width_pct w = spec_width_pct (high w) (low w)"
    and lo: "fl_le (Fin (width_min_pct cfg)) (width_pct w)"
    and hi: "fl_le (width_pct w) (Fin (width_max_pct cfg))" by blast+
  from detect_range_finite[OF assms] obtain H L
    where HL: "high w = Fin H" "low w = Fin L" "L < H" "H + L \<noteq> 0" by blast
  have p: "width_pct w = Fin ((H - L) / ((H + L) / 2) * 100)"
    using w HL by (simp add: spec_width_pct_def fl_sub_def)
  from lo hi p have "width_min_pct cfg \<le> (H - L) / ((H + L) / 2) * 100"
    "(H - L) / ((H + L) / 2) * 100 \<le> width_max_pct cfg" by simp_all
  with w lo hi HL p show ?thesis
    unfolding spec_width_pct_def by (intro conjI exI[of _ H] exI[of _ L]) simp_all
qed

theorem detect_range_width_bounds_witness:
  "detect_range RANGE_CONFIG series_range_and_trend =
     Inr (Some \<lparr> high = Fin 101, low = Fin (199 / 2), width_pct = Fin (600 / 401),
                 start_index = 0, end_index = 14 \<rparr>) \<and>
   fl_le (Fin (7 / 10)) (Fin (600 / 401)) \<and> fl_le (Fin (600 / 401)) (Fin 3)"
proof -
  let ?w = "\<lparr> high = Fin 101, low = Fin (199 / 2), width_pct = Fin (600 / 401),
              start_index = 0, end_index = 14 \<rparr>"
  have h1: "detect_range RANGE_CONFIG series_range_and_trend = Inr (Some ?w)"
    by code_simp
  from detect_range_width_bounds[OF h1]
  have "fl_le (Fin (width_min_pct RANGE_CONFIG)) (width_pct ?w) \<and>
        fl_le (width_pct ?w) (Fin (width_max_pct RANGE_CONFIG))" by blast
  then have "fl_le (Fin (7 / 10)) (Fin (600 / 401)) \<and> fl_le (Fin (600 / 401)) (Fin 3)"
    by (simp add: RANGE_CONFIG_def)
  with h1 show ?thesis by simp
qed

text \<open>
  C4 (range detector scan order). \<open>detect_range\<close> looks at the windows of \<open>min_candles\<close>
  rows from the start offset \<open>len(df) - min_candles\<close> (the window ending at the most recent
  candle) down to offset 0 and returns the window of the greatest offset that satisfies
  the five qualifying conditions: when several windows qualify, the most recent one is
  returned, and None is returned exactly when the series is too short or no window
  qualifies.
\<close>

theorem detect_range_scan_order:
  "(detect_range cfg df = Inr (Some w) \<longleftrightarrow>
      min_candles cfg \<le> length df \<and>
      (\<exists>s\<le>length df - min_candles cfg.
          spec_qualifying_window cfg (take (min_candles cfg) (drop s df)) \<and>
          w = spec_range_window cfg (take (min_candles cfg) (drop s df)) s \<and>
          (\<forall>t. s < t \<and> t \<le> length df - min_candles cfg \<longrightarrow>
               \<not> spec_qualifying_window cfg (take (min_candles cfg) (drop t df))))) \<and>
   (detect_range cfg df = Inr None \<longleftrightarrow>
      length df < min_candles cfg \<or>
      (\<forall>s\<le>length df - min_candles cfg.
          \<not> spec_qualifying_window cfg (take (min_candles cfg) (drop s df)))) \<and>
   (min_candles cfg \<le> length df \<longrightarrow>
      take (min_candles cfg) (drop (length df - min_candles cfg) df) =
        drop (length df - min_candles cfg) df \<and>
      length (drop (length df - min_candles cfg) df) = min_candles cfg)"
proof (intro conjI)
  show "detect_range cfg df = Inr (Some w) \<longleftrightarrow>
      min_candles cfg \<le> length df \<and>
      (\<exists>s\<le>length df - min_candles cfg.
          spec_qualifying_window cfg (take (min_candles cfg) (drop s df)) \<and>
          w = spec_range_window cfg (take (min_candles cfg) (drop s df)) s \<and>
          (\<forall>t. s < t \<and> t \<le> length df - min_candles cfg \<longrightarrow>
               \<not> spec_qualifying_window cfg (take (min_candles cfg) (drop t df))))"
    by (simp add: detect_range_def scan_windows_Some_iff check_window_Some_iff
        check_window_None_iff not_less)
  show "detect_range cfg df = Inr None \<longleftrightarrow>
      length df < min_candles cfg \<or>
      (\<forall>s\<le>length df - min_candles cfg.
          \<not> spec_qualifying_window cfg (take (min_candles cfg) (drop s df)))"
    by (simp add: detect_range_def scan_windows_None_iff check_window_None_iff)
  show "min_candles cfg \<le> length df \<longrightarrow>
      take (min_candles cfg) (drop (length df - min_candles cfg) df) =
        drop (length df - min_candles cfg) df \<and>
      length (drop (length df - min_candles cfg) df) = min_candles cfg"
    by simp
qed

theorem detect_range_scan_order_witness:
  "\<not> spec_qualifying_window RANGE_CONFIG (take 15 (drop 2 series_two_ranges)) \<and>
   spec_qualifying_window RANGE_CONFIG (take 15 (drop 1 series_two_ranges)) \<and>
   spec_qualifying_window RANGE_CONFIG (take 15 (drop 0 series_two_ranges)) \<and>
   detect_range RANGE_CONFIG series_two_ranges =
     Inr (Some \<lparr> high = Fin (201 / 2), low = Fin (199 / 2), width_pct = Fin 1,
                 start_index = 1, end_index = 15 \<rparr>)"
proof -
  let ?w = "\<lparr> high = Fin (201 / 2), low = Fin (199 / 2), width_pct = Fin 1,
              start_index = 1, end_index = 15 \<rparr>"
  have mc: "min_candles RANGE_CONFIG = 15" by (simp add: RANGE_CONFIG_def)
  have len: "length series_two_ranges = 17" by (simp add: series_two_ranges_def)
  have q2: "\<not> spec_qualifying_window RANGE_CONFIG (take 15 (drop 2 series_two_ranges))"
    by code_simp
  have q1: "spec_qualifying_window RANGE_CONFIG (take 15 (drop 1 series_two_ranges))"
    by code_simp
  have q0: "spec_qualifying_window RANGE_CONFIG (take 15 (drop 0 series_two_ranges))"
    by code_simp
  have w1: "?w = spec_range_window RANGE_CONFIG (take 15 (drop 1 series_two_ranges)) 1"
    by code_simp
  have later: "\<forall>t. 1 < t \<and> t \<le> length series_two_ranges - min_candles RANGE_CONFIG \<longrightarrow>
      \<not> spec_qualifying_window RANGE_CONFIG
          (take (min_candles RANGE_CONFIG) (drop t series_two_ranges))"
  proof (intro allI impI)
    fix t :: nat
    assume "1 < t \<and> t \<le> length series_two_ranges - min_candles RANGE_CONFIG"
    then have "t = 2" by (simp add: mc len)
    with q2 show "\<not> spec_qualifying_window RANGE_CONFIG
          (take (min_candles RANGE_CONFIG) (drop t series_two_ranges))"
      by (simp add: mc)
  qed
  have rhs: "min_candles RANGE_CONFIG \<le> length series_two_ranges \<and>
      (\<exists>s\<le>length series_two_ranges - min_candles RANGE_CONFIG.
          spec_qualifying_window RANGE_CONFIG
            (take (min_candles RANGE_CONFIG) (drop s series_two_ranges)) \<and>
          ?w = spec_range_window RANGE_CONFIG
            (take (min_candles RANGE_CONFIG) (drop s series_two_ranges)) s \<and>
          (\<forall>t. s < t \<and> t \<le> length series_two_ranges - min_candles RANGE_CONFIG \<longrightarrow>
               \<not> spec_qualifying_window RANGE_CONFIG
                   (take (min_candles RANGE_CONFIG) (drop t series_two_ranges))))"
  proof (intro conjI exI[of _ 1])
    show "min_candles RANGE_CONFIG \<le> length series_two_ranges" by (simp add: mc len)
    show "1 \<le> length series_two_ranges - min_candles RANGE_CONFIG" by (simp add: mc len)
    show "spec_qualifying_window RANGE_CONFIG
            (take (min_candles RANGE_CONFIG) (drop 1 series_two_ranges))"
      using q1 by (simp add: mc)
    show "?w = spec_range_window RANGE_CONFIG
            (take (min_candles RANGE_CONFIG) (drop 1 series_two_ranges)) 1"
      using w1 by (simp add: mc)
    show "\<forall>t. 1 < t \<and> t \<le> length series_two_ranges - min_candles RANGE_CONFIG \<longrightarrow>
               \<not> spec_qualifying_window RANGE_CONFIG
                   (take (min_candles RANGE_CONFIG) (drop t series_two_ranges))"
      by (rule later)
  qed
  have "detect_range RANGE_CONFIG series_two_ranges = Inr (Some ?w)"
    using detect_range_scan_order[of RANGE_CONFIG series_two_ranges ?w] rhs by blast
  with q2 q1 q0 show ?thesis by simp
qed

text \<open>
  C5 (short series). On a series with fewer than \<open>min_candles\<close> rows (15 in the default
  configuration) \<open>detect_range\<close> returns None, and \<open>analyze_data\<close> does not return the
  label "Limit Catch Entry", whatever the reason text.
\<close>

theorem short_series_no_limit_catch:
  assumes "length df < min_candles rcfg"
  shows "detect_range rcfg df = Inr None \<and>
         (\<forall>reason. analyze_data rcfg icfg df \<noteq> Inr (''Limit Catch Entry'', reason))"
  using assms analyze_data_short[OF assms] by (simp add: detect_range_def)

theorem short_series_no_limit_catch_witness:
  "length series_short < min_candles RANGE_CONFIG \<and>
   detect_range RANGE_CONFIG series_short = Inr None \<and>
   (\<forall>reason. analyze_data RANGE_CONFIG IMPULSE_CONFIG series_short
      \<noteq> Inr (''Limit Catch Entry'', reason)) \<and>
   analyze_data RANGE_CONFIG IMPULSE_CONFIG series_short =
     Inr (''No Entry'', [TrendBosImpulse None False False])"
proof -
  have h: "length series_short < min_candles RANGE_CONFIG"
    by (simp add: series_short_def RANGE_CONFIG_def)
  have r: "analyze_data RANGE_CONFIG IMPULSE_CONFIG series_short =
     Inr (''No Entry'', [TrendBosImpulse None False False])"
    by code_simp
  from short_series_no_limit_catch[OF h, of IMPULSE_CONFIG] h r show ?thesis by simp
qed

text \<open>
  C6 (trend detector on short series). On a series of fewer than \<open>lookback + 1\<close> rows (11)
  the trend detector returns none and false; on every series it returns a pair, and
  whenever the trend of that pair is none the break of structure is false.
\<close>

theorem trend_bos_short_or_none:
  "(length df < TREND_LOOKBACK + 1 \<longrightarrow> detect_trend_and_bos df = Inr (None, False)) \<and>
   TREND_LOOKBACK + 1 = 11 \<and>
   (\<exists>tr b. detect_trend_and_bos df = Inr (tr, b)) \<and>
   (\<forall>b. detect_trend_and_bos df = Inr (None, b) \<longrightarrow> b = False)"
proof (intro conjI)
  show "length df < TREND_LOOKBACK + 1 \<longrightarrow> detect_trend_and_bos df = Inr (None, False)"
    by (simp add: trend_short)
  show "TREND_LOOKBACK + 1 = 11" by (simp add: TREND_LOOKBACK_def)
  show "\<exists>tr b. detect_trend_and_bos df = Inr (tr, b)"
    using detect_trend_and_bos_no_error[of df] by (cases "detect_trend_and_bos df") auto
  show "\<forall>b. detect_trend_and_bos df = Inr (None, b) \<longrightarrow> b = False"
    using trend_none_no_bos by blast
qed

theorem trend_bos_short_or_none_witness:
  "length series_ten < TREND_LOOKBACK + 1 \<and>
   detect_trend_and_bos series_ten = Inr (None, False) \<and>
   \<not> length series_flat < TREND_LOOKBACK + 1 \<and>
   detect_trend_and_bos series_flat = Inr (None, False)"
proof -
  have h: "length series_ten < TREND_LOOKBACK + 1"
    by (simp add: series_ten_def TREND_LOOKBACK_def)
  have l: "\<not> length series_flat < TREND_LOOKBACK + 1"
    by (simp add: series_flat_def TREND_LOOKBACK_def)
  have f: "fst (projr (detect_trend_and_bos series_flat)) = None" by code_simp
  from trend_bos_short_or_none[of series_ten] h
  have t: "detect_trend_and_bos series_ten = Inr (None, False)" by blast
  from trend_bos_short_or_none[of series_flat] obtain tr b
    where tb: "detect_trend_and_bos series_flat = Inr (tr, b)"
      and nb: "\<forall>b. detect_trend_and_bos series_flat = Inr (None, b) \<longrightarrow> b = False"
    by blast
  from tb f have "tr = None" by simp
  with tb nb have "detect_trend_and_bos series_flat = Inr (None, False)" by auto
  with h l t show ?thesis by simp
qed

text \<open>
  C7 (impulse detector, monotone in the thresholds). For a fixed series and two
  configurations with the same candle counts, where the stricter one has the larger (or
  equal) \<open>min_total_pct_change\<close> and \<open>min_body_pct\<close>: an impulse reported under the stricter
  configuration is reported under the laxer one, so that raising a threshold never turns
  "no impulse" into "impulse".
\<close>

theorem impulse_threshold_monotone:
  assumes "min_candles_consecutive lax = min_candles_consecutive strict"
    and "max_candles_total lax = max_candles_total strict"
    and "min_total_pct_change lax \<le> min_total_pct_change strict"
    and "min_body_pct lax \<le> min_body_pct strict"
    and "check_recent_impulse strict df = Inr True"
  shows "check_recent_impulse lax df = Inr True"
  using impulse_loop_mono[OF assms(3,4)] assms(1,2,5)
  by (simp add: check_recent_impulse_def)

theorem impulse_threshold_monotone_witness:
  "min_candles_consecutive IMPULSE_CONFIG = min_candles_consecutive IMPULSE_CONFIG_strict \<and>
   max_candles_total IMPULSE_CONFIG = max_candles_total IMPULSE_CONFIG_strict \<and>
   min_total_pct_change IMPULSE_CONFIG \<le> min_total_pct_change IMPULSE_CONFIG_strict \<and>
   min_body_pct IMPULSE_CONFIG \<le> min_body_pct IMPULSE_CONFIG_strict \<and>
   check_recent_impulse IMPULSE_CONFIG_strict series_impulse = Inr True \<and>
   check_recent_impulse IMPULSE_CONFIG series_impulse = Inr True"
proof -
  have h1: "min_candles_consecutive IMPULSE_CONFIG =
      min_candles_consecutive IMPULSE_CONFIG_strict"
    by (simp add: IMPULSE_CONFIG_strict_def)
  have h2: "max_candles_total IMPULSE_CONFIG = max_candles_total IMPULSE_CONFIG_strict"
    by (simp add: IMPULSE_CONFIG_strict_def)
  have h3: "min_total_pct_change IMPULSE_CONFIG \<le> min_total_pct_change IMPULSE_CONFIG_strict"
    by (simp add: IMPULSE_CONFIG_strict_def IMPULSE_CONFIG_def)
  have h4: "min_body_pct IMPULSE_CONFIG \<le> min_body_pct IMPULSE_CONFIG_strict"
    by (simp add: IMPULSE_CONFIG_strict_def IMPULSE_CONFIG_def)
  have h5: "check_recent_impulse IMPULSE_CONFIG_strict series_impulse = Inr True"
    by code_simp
  from impulse_threshold_monotone[OF h1 h2 h3 h4 h5] h1 h2 h3 h4 h5
  show ?thesis by simp
qed

text \<open>
  C8 (flat candles in the preprocessor). When every timestamp parses, the preprocessor
  returns the frame, flat candles included: the row of a candle with \<open>high - low = 0\<close>
  has \<open>body_ratio = 0\<close>, and the row of any other candle has
  \<open>body_ratio = |close - open| / (high - low) * 100\<close>.
\<close>

theorem preprocess_body_ratio:
  assumes "c \<in> set data" and "\<forall>d\<in>set data. to_datetime (timestamp d) \<noteq> None"
  shows "\<exists>rows. preprocess_data_from_json to_datetime data = Inr rows \<and>
     length rows = length data \<and>
     (\<exists>r\<in>set rows.
        timestamp r = timestamp c \<and> open_c r = open_c c \<and> high_c r = high_c c \<and>
        low_c r = low_c c \<and> close_c r = close_c c \<and>
        body r = fl_abs (fl_sub (close_c c) (open_c c)) \<and>
        range_c r = fl_sub (high_c c) (low_c c) \<and>
        (fl_eq (fl_sub (high_c c) (low_c c)) (Fin 0) \<longrightarrow> body_ratio r = Fin 0) \<and>
        (\<not> fl_eq (fl_sub (high_c c) (low_c c)) (Fin 0) \<longrightarrow>
           body_ratio r =
             fl_mul (fl_div (fl_abs (fl_sub (close_c c) (open_c c)))
                            (fl_sub (high_c c) (low_c c))) (Fin 100)))"
proof -
  from assms(1) have ne: "data \<noteq> []" by auto
  from preprocess_ok[OF ne assms(2)] obtain rows
    where rows: "preprocess_data_from_json to_datetime data = Inr rows"
      "set rows = candle_metrics ` set data" "length rows = length data" by blast
  from rows(2) assms(1) have mem: "candle_metrics c \<in> set rows" by blast
  show ?thesis
    using rows(1,3) mem candle_metrics_fields[of c] candle_metrics_body_ratio[of c]
    by (intro exI[of _ rows] conjI bexI[of _ "candle_metrics c"]) simp_all
qed

theorem preprocess_body_ratio_witness:
  "example_flat_candle \<in> set [example_candle, example_flat_candle] \<and>
   example_candle \<in> set [example_candle, example_flat_candle] \<and>
   example_to_datetime (timestamp example_candle) = Some 2 \<and>
   example_to_datetime (timestamp example_flat_candle) = Some 1 \<and>
   fl_eq (fl_sub (high_c example_flat_candle) (low_c example_flat_candle)) (Fin 0) \<and>
   \<not> fl_eq (fl_sub (high_c example_candle) (low_c example_candle)) (Fin 0) \<and>
   (\<exists>rows r1 r2. preprocess_data_from_json example_to_datetime
              [example_candle, example_flat_candle] = Inr rows \<and>
      r1 \<in> set rows \<and> timestamp r1 = ''2024-01-01'' \<and> body_ratio r1 = Fin 0 \<and>
      r2 \<in> set rows \<and> timestamp r2 = ''2024-01-02'' \<and> body_ratio r2 = Fin 25)"
proof -
  let ?D = "[example_candle, example_flat_candle]"
  have m1: "example_flat_candle \<in> set ?D" and m2: "example_candle \<in> set ?D" by simp_all
  have p2: "example_to_datetime (timestamp example_candle) = Some 2"
    by (simp add: example_to_datetime_def example_candle_def)
  have p1: "example_to_datetime (timestamp example_flat_candle) = Some 1"
    by (simp add: example_to_datetime_def example_flat_candle_def)
  from p1 p2 have p: "\<forall>d\<in>set ?D. example_to_datetime (timestamp d) \<noteq> None" by simp
  have flat: "fl_eq (fl_sub (high_c example_flat_candle) (low_c example_flat_candle)) (Fin 0)"
    by (simp add: example_flat_candle_def fl_eq_def fl_sub_def fl_isna_def)
  have wide: "\<not> fl_eq (fl_sub (high_c example_candle) (low_c example_candle)) (Fin 0)"
    by (simp add: example_candle_def fl_eq_def fl_sub_def)
  from preprocess_body_ratio[OF m1 p] flat obtain rows r
    where rows: "preprocess_data_from_json example_to_datetime ?D = Inr rows"
      and r: "r \<in> set rows" "timestamp r = timestamp example_flat_candle"
        "body_ratio r = Fin 0"
    by blast
  from preprocess_body_ratio[OF m2 p] wide rows obtain r'
    where r': "r' \<in> set rows" "timestamp r' = timestamp example_candle"
        "body_ratio r' =
           fl_mul (fl_div (fl_abs (fl_sub (close_c example_candle) (open_c example_candle)))
                          (fl_sub (high_c example_candle) (low_c example_candle))) (Fin 100)"
    by auto
  from r(2) have t: "timestamp r = ''2024-01-01''" by (simp add: example_flat_candle_def)
  from r'(2) have t': "timestamp r' = ''2024-01-02''" by (simp add: example_candle_def)
  from r'(3) have b': "body_ratio r' = Fin 25"
    by (simp add: example_candle_def fl_sub_def)
  have "\<exists>rows r1 r2. preprocess_data_from_json example_to_datetime ?D = Inr rows \<and>
      r1 \<in> set rows \<and> timestamp r1 = ''2024-01-01'' \<and> body_ratio r1 = Fin 0 \<and>
      r2 \<in> set rows \<and> timestamp r2 = ''2024-01-02'' \<and> body_ratio r2 = Fin 25"
    using rows r(1,3) t r'(1) t' b' by blast
  with m1 m2 p1 p2 flat wide show ?thesis by blast
qed

text \<open>
  C9 (detector edge cases are skipped, never raised). A candidate window whose
  \<open>window_high\<close> is NaN or not above \<open>window_low\<close> ends its iteration without a result,
  and the scan goes on with the next start offset; a candidate impulse length whose
  first open is 0 is skipped, and the next length is tried. \<open>detect_range\<close> returns on
  every series, and so does \<open>check_recent_impulse\<close> for every configuration whose
  smallest candidate length is at least 1, the default one included.
\<close>

theorem detector_edge_cases_skip:
  "(fl_isna (series_max (map high_c (take (min_candles rcfg) (drop s df)))) \<or>
    fl_le (series_max (map high_c (take (min_candles rcfg) (drop s df))))
          (series_min (map low_c (take (min_candles rcfg) (drop s df)))) \<longrightarrow>
      check_window rcfg df s = Inr None \<and>
      (\<forall>k. s = Suc k \<longrightarrow> scan_windows rcfg df s = scan_windows rcfg df k)) \<and>
   (n \<le> length df \<and> iloc_first (map open_c (iloc_tail n df)) = Inr st \<and>
    fl_eq st (Fin 0) \<longrightarrow>
      check_length icfg df n = Inr False \<and>
      impulse_loop icfg df (n # ns) = impulse_loop icfg df ns) \<and>
   (\<exists>res. detect_range rcfg df = Inr res) \<and>
   (0 < min_candles_consecutive icfg \<longrightarrow> (\<exists>b. check_recent_impulse icfg df = Inr b)) \<and>
   (\<exists>b. check_recent_impulse IMPULSE_CONFIG df = Inr b)"
proof (intro conjI)
  show "fl_isna (series_max (map high_c (take (min_candles rcfg) (drop s df)))) \<or>
    fl_le (series_max (map high_c (take (min_candles rcfg) (drop s df))))
          (series_min (map low_c (take (min_candles rcfg) (drop s df)))) \<longrightarrow>
      check_window rcfg df s = Inr None \<and>
      (\<forall>k. s = Suc k \<longrightarrow> scan_windows rcfg df s = scan_windows rcfg df k)"
  proof
    assume "fl_isna (series_max (map high_c (take (min_candles rcfg) (drop s df)))) \<or>
      fl_le (series_max (map high_c (take (min_candles rcfg) (drop s df))))
            (series_min (map low_c (take (min_candles rcfg) (drop s df))))"
    then have "check_window rcfg df s = Inr None" by (rule check_window_degenerate)
    then show "check_window rcfg df s = Inr None \<and>
      (\<forall>k. s = Suc k \<longrightarrow> scan_windows rcfg df s = scan_windows rcfg df k)"
      by auto
  qed
  show "n \<le> length df \<and> iloc_first (map open_c (iloc_tail n df)) = Inr st \<and>
    fl_eq st (Fin 0) \<longrightarrow>
      check_length icfg df n = Inr False \<and>
      impulse_loop icfg df (n # ns) = impulse_loop icfg df ns"
    using check_length_zero_start[of n df st icfg] by auto
  show "\<exists>res. detect_range rcfg df = Inr res"
    using detect_range_no_error[of rcfg df] by (cases "detect_range rcfg df") auto
  show "0 < min_candles_consecutive icfg \<longrightarrow> (\<exists>b. check_recent_impulse icfg df = Inr b)"
    using check_recent_impulse_no_error[of icfg df]
    by (cases "check_recent_impulse icfg df") auto
  show "\<exists>b. check_recent_impulse IMPULSE_CONFIG df = Inr b"
    using check_recent_impulse_no_error[of IMPULSE_CONFIG df]
    by (cases "check_recent_impulse IMPULSE_CONFIG df") (auto simp: IMPULSE_CONFIG_def)
qed

theorem detector_edge_cases_skip_witness:
  "fl_isna (series_max (map high_c (take (min_candles RANGE_CONFIG) (drop 1 series_nan_highs)))) \<and>
   check_window RANGE_CONFIG series_nan_highs 1 = Inr None \<and>
   scan_windows RANGE_CONFIG series_nan_highs 1 = scan_windows RANGE_CONFIG series_nan_highs 0 \<and>
   fl_le (series_max (map high_c (take (min_candles RANGE_CONFIG) (drop 1 series_one_price))))
         (series_min (map low_c (take (min_candles RANGE_CONFIG) (drop 1 series_one_price)))) \<and>
   check_window RANGE_CONFIG series_one_price 1 = Inr None \<and>
   scan_windows RANGE_CONFIG series_one_price 1 = scan_windows RANGE_CONFIG series_one_price 0 \<and>
   2 \<le> length series_zero_open \<and>
   iloc_first (map open_c (iloc_tail 2 series_zero_open)) = Inr (Fin 0) \<and>
   fl_eq (Fin 0) (Fin 0) \<and>
   check_length IMPULSE_CONFIG series_zero_open 2 = Inr False \<and>
   impulse_loop IMPULSE_CONFIG series_zero_open [2, 3] =
     impulse_loop IMPULSE_CONFIG series_zero_open [3] \<and>
   0 < min_candles_consecutive IMPULSE_CONFIG \<and>
   (\<exists>b. check_recent_impulse IMPULSE_CONFIG series_zero_open = Inr b)"
proof -
  have nan: "fl_isna (series_max (map high_c
      (take (min_candles RANGE_CONFIG) (drop 1 series_nan_highs))))"
    by code_simp
  have inv: "fl_le
      (series_max (map high_c (take (min_candles RANGE_CONFIG) (drop 1 series_one_price))))
      (series_min (map low_c (take (min_candles RANGE_CONFIG) (drop 1 series_one_price))))"
    by code_simp
  have len: "2 \<le> length series_zero_open" by (simp add: series_zero_open_def)
  have st: "iloc_first (map open_c (iloc_tail 2 series_zero_open)) = Inr (Fin 0)"
    by code_simp
  have z: "fl_eq (Fin 0) (Fin 0)" by (simp add: fl_eq_def fl_isna_def)
  have pos: "0 < min_candles_consecutive IMPULSE_CONFIG" by (simp add: IMPULSE_CONFIG_def)
  note a = detector_edge_cases_skip[where rcfg = RANGE_CONFIG and s = 1
      and df = series_nan_highs and icfg = IMPULSE_CONFIG]
  note b = detector_edge_cases_skip[where rcfg = RANGE_CONFIG and s = 1
      and df = series_one_price and icfg = IMPULSE_CONFIG]
  note c = detector_edge_cases_skip[where rcfg = RANGE_CONFIG and df = series_zero_open
      and n = 2 and st = "Fin 0" and icfg = IMPULSE_CONFIG and ns = "[3]"]
  from a nan have a1: "check_window RANGE_CONFIG series_nan_highs 1 = Inr None"
    and a2: "scan_windows RANGE_CONFIG series_nan_highs 1 =
             scan_windows RANGE_CONFIG series_nan_highs 0"
    by simp_all
  from b inv have b1: "check_window RANGE_CONFIG series_one_price 1 = Inr None"
    and b2: "scan_windows RANGE_CONFIG series_one_price 1 =
             scan_windows RANGE_CONFIG series_one_price 0"
    by simp_all
  from c len st z have c1: "check_length IMPULSE_CONFIG series_zero_open 2 = Inr False"
    and c2: "impulse_loop IMPULSE_CONFIG series_zero_open [2, 3] =
             impulse_loop IMPULSE_CONFIG series_zero_open [3]"
    by blast+
  from c pos have d: "\<exists>b. check_recent_impulse IMPULSE_CONFIG series_zero_open = Inr b"
    by blast
  from nan a1 a2 inv b1 b2 len st z c1 c2 pos d show ?thesis by blast
qed

text \<open>
  C10 (the impulse detector on very short series). On a series with fewer than
  \<open>min_candles_consecutive\<close> rows, the empty series included, \<open>check_recent_impulse\<close> returns
  false and does not raise. So a range that starts at index 0, whose rows before the
  range are the empty series, with the latest close in the entry zone, is classified
  "Limit Catch Entry".
\<close>

theorem impulse_short_series_false:
  "(length df < min_candles_consecutive icfg \<longrightarrow> check_recent_impulse icfg df = Inr False) \<and>
   check_recent_impulse IMPULSE_CONFIG [] = Inr False \<and>
   (0 < min_candles_consecutive icfg \<and> detect_range rcfg df = Inr (Some w) \<and>
    start_index w = 0 \<and> iloc_last (map close_c df) = Inr c \<and>
    check_price_near_extreme c (low w) (high w) (midrange_pct rcfg) \<longrightarrow>
      (\<exists>reason. analyze_data rcfg icfg df = Inr (''Limit Catch Entry'', reason)))"
proof (intro conjI impI)
  show "check_recent_impulse icfg df = Inr False"
    if "length df < min_candles_consecutive icfg"
    using that by (rule check_recent_impulse_short)
  show "check_recent_impulse IMPULSE_CONFIG [] = Inr False"
    by (rule check_recent_impulse_short) (simp add: IMPULSE_CONFIG_def)
  show "\<exists>reason. analyze_data rcfg icfg df = Inr (''Limit Catch Entry'', reason)"
    if h: "0 < min_candles_consecutive icfg \<and> detect_range rcfg df = Inr (Some w) \<and>
      start_index w = 0 \<and> iloc_last (map close_c df) = Inr c \<and>
      check_price_near_extreme c (low w) (high w) (midrange_pct rcfg)"
  proof -
    from h have "check_recent_impulse icfg (take (start_index w) df) = Inr False"
      by (simp add: check_recent_impulse_short)
    with h analyze_data_limit_catch[of rcfg df w c icfg] show ?thesis by blast
  qed
qed

theorem impulse_short_series_false_witness:
  "length [candle 100 110 100 110] < min_candles_consecutive IMPULSE_CONFIG \<and>
   check_recent_impulse IMPULSE_CONFIG [candle 100 110 100 110] = Inr False \<and>
   0 < min_candles_consecutive IMPULSE_CONFIG \<and>
   detect_range RANGE_CONFIG series_range_and_trend =
     Inr (Some \<lparr> high = Fin 101, low = Fin (199 / 2), width_pct = Fin (600 / 401),
                 start_index = 0, end_index = 14 \<rparr>) \<and>
   iloc_last (map close_c series_range_and_trend) = Inr (Fin (1009 / 10)) \<and>
   check_price_near_extreme (Fin (1009 / 10)) (Fin (199 / 2)) (Fin 101)
     (midrange_pct RANGE_CONFIG) \<and>
   (\<exists>reason. analyze_data RANGE_CONFIG IMPULSE_CONFIG series_range_and_trend =
      Inr (''Limit Catch Entry'', reason))"
proof -
  let ?w = "\<lparr> high = Fin 101, low = Fin (199 / 2), width_pct = Fin (600 / 401),
              start_index = 0, end_index = 14 \<rparr>"
  have s: "length [candle 100 110 100 110] < min_candles_consecutive IMPULSE_CONFIG"
    by (simp add: IMPULSE_CONFIG_def)
  have pos: "0 < min_candles_consecutive IMPULSE_CONFIG" by (simp add: IMPULSE_CONFIG_def)
  have h1: "detect_range RANGE_CONFIG series_range_and_trend = Inr (Some ?w)"
    by code_simp
  have h2: "iloc_last (map close_c series_range_and_trend) = Inr (Fin (1009 / 10))"
    by code_simp
  have h3: "check_price_near_extreme (Fin (1009 / 10)) (low ?w) (high ?w)
      (midrange_pct RANGE_CONFIG)"
    by code_simp
  have i0: "start_index ?w = 0" by simp
  from impulse_short_series_false[of "[candle 100 110 100 110]" IMPULSE_CONFIG] s
  have f: "check_recent_impulse IMPULSE_CONFIG [candle 100 110 100 110] = Inr False"
    by blast
  from impulse_short_series_false[of series_range_and_trend IMPULSE_CONFIG RANGE_CONFIG
      ?w "Fin (1009 / 10)"] pos h1 h2 h3 i0
  have "\<exists>reason. analyze_data RANGE_CONFIG IMPULSE_CONFIG series_range_and_trend =
      Inr (''Limit Catch Entry'', reason)"
    by blast
  with s f pos h1 h2 h3 show ?thesis by simp
qed

end
